theory Spec2Isabelle
  imports Complex_Main "HOL-Library.Code_Target_Numeral"
begin

section \<open>Numbers\<close>

text \<open>
  The module computes with ECMAScript numbers. They are modelled as exact rationals
  together with the three special values of IEEE 754: the rounding of every operation
  to binary64 is abstracted (arithmetic is exact, nothing overflows), and the two zeros
  are one value. Everything else follows ECMA-262: how \<open>NaN\<close> and the infinities
  propagate, the comparisons, \<open>Math.max\<close> and \<open>Math.min\<close>, and the conversions
  between numbers and strings.
\<close>

datatype number = Finite rat | PosInf | NegInf | NaN

fun js_neg :: "number \<Rightarrow> number" where
  "js_neg (Finite x) = Finite (- x)"
| "js_neg PosInf = NegInf"
| "js_neg NegInf = PosInf"
| "js_neg NaN = NaN"

text \<open>\<open>a + b\<close>\<close>

fun js_add :: "number \<Rightarrow> number \<Rightarrow> number" where
  "js_add (Finite x) (Finite y) = Finite (x + y)"
| "js_add NaN _ = NaN"
| "js_add _ NaN = NaN"
| "js_add PosInf NegInf = NaN"
| "js_add NegInf PosInf = NaN"
| "js_add PosInf _ = PosInf"
| "js_add NegInf _ = NegInf"
| "js_add _ PosInf = PosInf"
| "js_add _ NegInf = NegInf"

text \<open>\<open>a - b\<close>\<close>

definition js_sub :: "number \<Rightarrow> number \<Rightarrow> number" where
  "js_sub a b = js_add a (js_neg b)"

text \<open>The sign of a number, for the products and quotients with an infinity.\<close>

fun js_sgn :: "number \<Rightarrow> int" where
  "js_sgn (Finite x) = (if x < 0 then - 1 else if x = 0 then 0 else 1)"
| "js_sgn PosInf = 1"
| "js_sgn NegInf = - 1"
| "js_sgn NaN = 0"

definition signed_inf :: "int \<Rightarrow> number" where
  "signed_inf s = (if s = 0 then NaN else if s < 0 then NegInf else PosInf)"

text \<open>\<open>a * b\<close>: zero times an infinity is \<open>NaN\<close>.\<close>

fun js_mul :: "number \<Rightarrow> number \<Rightarrow> number" where
  "js_mul (Finite x) (Finite y) = Finite (x * y)"
| "js_mul NaN _ = NaN"
| "js_mul _ NaN = NaN"
| "js_mul a b = signed_inf (js_sgn a * js_sgn b)"

text \<open>
  \<open>a / b\<close>. The module divides by the literal \<open>100\<close> only; a finite number divided by
  zero is given the sign of the dividend, zero being read as \<open>+0\<close>.
\<close>

fun js_div :: "number \<Rightarrow> number \<Rightarrow> number" where
  "js_div (Finite x) (Finite y) =
     (if y = 0 then signed_inf (js_sgn (Finite x)) else Finite (x / y))"
| "js_div NaN _ = NaN"
| "js_div _ NaN = NaN"
| "js_div (Finite x) _ = Finite 0"
| "js_div a (Finite y) = signed_inf (js_sgn a * (if y < 0 then - 1 else 1))"
| "js_div _ _ = NaN"

text \<open>\<open>a < b\<close>, false as soon as one side is \<open>NaN\<close>; \<open>a > b\<close> is \<open>b < a\<close>.\<close>

fun js_lt :: "number \<Rightarrow> number \<Rightarrow> bool" where
  "js_lt (Finite x) (Finite y) = (x < y)"
| "js_lt NaN _ = False"
| "js_lt _ NaN = False"
| "js_lt _ NegInf = False"
| "js_lt PosInf _ = False"
| "js_lt NegInf _ = True"
| "js_lt _ PosInf = True"

definition js_gt :: "number \<Rightarrow> number \<Rightarrow> bool" where
  "js_gt a b = js_lt b a"

text \<open>\<open>a <= b\<close> and \<open>a >= b\<close>, again false as soon as one side is \<open>NaN\<close>.\<close>

definition js_le :: "number \<Rightarrow> number \<Rightarrow> bool" where
  "js_le a b = (a \<noteq> NaN \<and> b \<noteq> NaN \<and> \<not> js_lt b a)"

definition js_ge :: "number \<Rightarrow> number \<Rightarrow> bool" where
  "js_ge a b = js_le b a"

text \<open>\<open>Math.max(a, b)\<close> and \<open>Math.min(a, b)\<close>: \<open>NaN\<close> if either argument is.\<close>

definition Math_max :: "number \<Rightarrow> number \<Rightarrow> number" where
  "Math_max a b = (if a = NaN \<or> b = NaN then NaN else if js_lt a b then b else a)"

definition Math_min :: "number \<Rightarrow> number \<Rightarrow> number" where
  "Math_min a b = (if a = NaN \<or> b = NaN then NaN else if js_lt b a then b else a)"

section \<open>Strings and decimal digits\<close>

text \<open>
  A string is the list of its code units; the model covers the strings whose code units
  are below 256, a \<^typ>\<open>char\<close> being the unit of that code.
\<close>

definition is_digit :: "char \<Rightarrow> bool" where
  "is_digit c = (48 \<le> (of_char c :: nat) \<and> (of_char c :: nat) \<le> 57)"

definition digit_val :: "char \<Rightarrow> nat" where
  "digit_val c = of_char c - 48"

definition digit_char :: "nat \<Rightarrow> char" where
  "digit_char d = char_of (48 + d)"

text \<open>The decimal digits of a natural number, most significant first; \<open>0\<close> is \<open>''0''\<close>.\<close>

fun digits_of :: "nat \<Rightarrow> string" where
  "digits_of n = (if n < 10 then [digit_char n] else digits_of (n div 10) @ [digit_char (n mod 10)])"

declare digits_of.simps [simp del]

text \<open>The number a digit string denotes (the mathematical value of \<open>DecimalDigits\<close>).\<close>

definition nat_of_digits :: "string \<Rightarrow> nat" where
  "nat_of_digits ds = foldl (\<lambda>acc c. 10 * acc + digit_val c) 0 ds"

text \<open>
  White space and line terminators (what \<open>\s\<close> matches and what \<open>parseFloat\<close> skips),
  among the code units below 256: TAB, LF, VT, FF, CR, SP and NBSP.
\<close>

definition is_space :: "char \<Rightarrow> bool" where
  "is_space c = ((of_char c :: nat) \<in> {9, 10, 11, 12, 13, 32, 160})"

section \<open>Numbers to strings\<close>

definition pow10 :: "int \<Rightarrow> rat" where
  "pow10 e = (if 0 \<le> e then 10 ^ nat e else 1 / 10 ^ nat (- e))"

text \<open>
  The nearest integer to a non-negative \<open>x\<close>, the larger one of two that are equally
  near (``if there are two such n, pick the larger n'').
\<close>

definition round_half_up :: "rat \<Rightarrow> nat" where
  "round_half_up x = nat \<lfloor>x + 1 / 2\<rfloor>"

text \<open>How many zeros follow the decimal point of \<open>0 < x < 1\<close> before its first digit.\<close>

function lead_zeros :: "rat \<Rightarrow> nat" where
  "lead_zeros x = (if 0 < x \<and> x * 10 < 1 then Suc (lead_zeros (x * 10)) else 0)"
  by pat_completeness auto

termination lead_zeros
proof (relation "measure (\<lambda>x. nat \<lceil>1 / x\<rceil>)")
  show "wf (measure (\<lambda>x::rat. nat \<lceil>1 / x\<rceil>))" by simp
next
  fix x :: rat assume a: "0 < x \<and> x * 10 < 1"
  then have "1 / (x * 10) + 1 \<le> 1 / x" by (simp add: field_simps)
  moreover have "of_int \<lceil>1 / (x * 10)\<rceil> < 1 / (x * 10) + 1" by linarith
  ultimately have "of_int \<lceil>1 / (x * 10)\<rceil> < 1 / x" by linarith
  then have "\<lceil>1 / (x * 10)\<rceil> < \<lceil>1 / x\<rceil>" by linarith
  moreover have "0 < \<lceil>1 / x\<rceil>" using a by (simp add: field_simps)
  ultimately show "(x * 10, x) \<in> measure (\<lambda>x. nat \<lceil>1 / x\<rceil>)" by simp
qed

declare lead_zeros.simps [simp del]

text \<open>The \<open>n\<close> of \<open>Number::toString\<close>: for \<open>0 < x\<close>, \<open>10 ^ (n - 1) \<le> x < 10 ^ n\<close>.\<close>

definition dec_exponent :: "rat \<Rightarrow> int" where
  "dec_exponent x =
     (if 1 \<le> x then int (length (digits_of (nat \<lfloor>x\<rfloor>))) else - int (lead_zeros x))"

definition strip_zeros :: "string \<Rightarrow> string" where
  "strip_zeros ds = rev (dropWhile (\<lambda>c. c = CHR ''0'') (rev ds))"

text \<open>
  The digits \<open>s\<close> and the exponent \<open>n\<close> of \<open>Number::toString\<close> for \<open>0 < x\<close>. ECMA-262
  takes the fewest digits that still identify the binary64 value, which are at most 17;
  with exact numbers that is \<open>x\<close> rounded to 17 significant digits, trailing zeros
  dropped. A number with at most 17 significant decimal digits prints as itself.
\<close>

definition sig_digits :: "rat \<Rightarrow> string \<times> int" where
  "sig_digits x =
     (let n = dec_exponent x;
          s = round_half_up (x * pow10 (17 - n))
      in if s = 10 ^ 17 then (''1'', n + 1) else (strip_zeros (digits_of s), n))"

text \<open>
  How \<open>Number::toString\<close> in radix 10 lays out the \<open>k\<close> digits for the exponent
  \<open>n\<close>: as an integer, with a decimal point inside, with leading zeros after
  \<open>0.\<close>, or in exponent notation when \<open>n\<close> is outside \<open>-5 \<dots> 21\<close>.
\<close>

definition layout :: "string \<Rightarrow> int \<Rightarrow> string" where
  "layout ds n =
     (let k = int (length ds) in
      if k \<le> n \<and> n \<le> 21 then ds @ replicate (nat (n - k)) (CHR ''0'')
      else if 0 < n \<and> n \<le> 21 then take (nat n) ds @ ''.'' @ drop (nat n) ds
      else if - 6 < n \<and> n \<le> 0 then ''0.'' @ replicate (nat (- n)) (CHR ''0'') @ ds
      else
        (let e = n - 1;
             es = (if e < 0 then ''-'' else ''+'') @ digits_of (nat \<bar>e\<bar>)
         in if k = 1 then ds @ ''e'' @ es
            else take 1 ds @ ''.'' @ drop 1 ds @ ''e'' @ es))"

definition pos_string :: "rat \<Rightarrow> string" where
  "pos_string x = (case sig_digits x of (ds, n) \<Rightarrow> layout ds n)"

text \<open>\<open>Number::toString(x, 10)\<close>, which a template literal applies to a number.\<close>

fun numToString :: "number \<Rightarrow> string" where
  "numToString NaN = ''NaN''"
| "numToString PosInf = ''Infinity''"
| "numToString NegInf = ''-Infinity''"
| "numToString (Finite x) =
     (if x = 0 then ''0'' else if x < 0 then ''-'' @ pos_string (- x) else pos_string x)"

text \<open>
  \<open>Number.prototype.toFixed\<close> on \<open>0 \<le> x < 10 ^ 21\<close>: the digits of the nearest
  integer to \<open>x * 10 ^ f\<close>, padded with zeros to \<open>f + 1\<close> digits, a point before
  the last \<open>f\<close>.
\<close>

definition fixed_digits :: "rat \<Rightarrow> nat \<Rightarrow> string" where
  "fixed_digits x f =
     (let m = digits_of (round_half_up (x * 10 ^ f));
          m' = (if length m \<le> f then replicate (f + 1 - length m) (CHR ''0'') @ m else m);
          k = length m'
      in if f = 0 then m else take (k - f) m' @ ''.'' @ drop (k - f) m')"

text \<open>
  \<open>x.toFixed(f)\<close> for \<open>0 \<le> f \<le> 100\<close> (the module passes 2 and 4, so the
  \<open>RangeError\<close> of other \<open>f\<close> cannot arise): a value that is not finite, or of
  magnitude \<open>10 ^ 21\<close> and more, is printed by \<open>Number::toString\<close>.
\<close>

fun toFixed :: "number \<Rightarrow> nat \<Rightarrow> string" where
  "toFixed (Finite x) f =
     (if x < 0 then ''-'' else []) @
     (if 10 ^ 21 \<le> \<bar>x\<bar> then numToString (Finite \<bar>x\<bar>) else fixed_digits \<bar>x\<bar> f)"
| "toFixed v f = numToString v"

section \<open>\<open>parseFloat\<close>\<close>

text \<open>
  The exponent part \<open>[eE][+-]?digits\<close> at the head of a string, as a power of ten;
  \<open>0\<close> when there is none.
\<close>

definition exponent_part :: "string \<Rightarrow> int" where
  "exponent_part s =
     (case s of
        [] \<Rightarrow> 0
      | e # r \<Rightarrow>
          if e = CHR ''e'' \<or> e = CHR ''E'' then
            (case r of
               [] \<Rightarrow> 0
             | c # r' \<Rightarrow>
                 if c = CHR ''-'' then - int (nat_of_digits (takeWhile is_digit r'))
                 else if c = CHR ''+'' then int (nat_of_digits (takeWhile is_digit r'))
                 else int (nat_of_digits (takeWhile is_digit r)))
          else 0)"

text \<open>
  The value of the longest prefix that is a \<open>StrUnsignedDecimalLiteral\<close>
  (\<open>Infinity\<close>, \<open>digits . digits? exp?\<close>, \<open>. digits exp?\<close> or \<open>digits exp?\<close>),
  \<open>NaN\<close> when no prefix is one.
\<close>

definition strUnsigned :: "string \<Rightarrow> number" where
  "strUnsigned s =
     (if take 8 s = ''Infinity'' then PosInf
      else
        (let ip = takeWhile is_digit s;
             r1 = dropWhile is_digit s;
             dot = (r1 \<noteq> [] \<and> hd r1 = CHR ''.'');
             fp = (if dot then takeWhile is_digit (tl r1) else []);
             r2 = (if dot then dropWhile is_digit (tl r1) else r1)
         in if ip = [] \<and> fp = [] then NaN
            else Finite ((of_nat (nat_of_digits ip)
                          + of_nat (nat_of_digits fp) / 10 ^ length fp)
                         * pow10 (exponent_part r2))))"

text \<open>\<open>parseFloat(s)\<close>: leading white space is skipped, then an optional sign.\<close>

definition parseFloat :: "string \<Rightarrow> number" where
  "parseFloat s =
     (case dropWhile is_space s of
        [] \<Rightarrow> NaN
      | c # r \<Rightarrow>
          if c = CHR ''-'' then js_neg (strUnsigned r)
          else if c = CHR ''+'' then strUnsigned r
          else strUnsigned (c # r))"

section \<open>Regular expressions\<close>

text \<open>
  The backtracking matcher of ECMA-262, for the constructs the module's pattern uses.
  A matcher takes the rest of the input and the captures so far and returns every way
  to go on, in the order in which backtracking tries them: the head of the list is the
  match that is found. Quantifiers are greedy. ECMA-262 clears the captures of the groups
  inside a quantified pattern when an iteration starts; the module's pattern repeats
  character classes only, and its one group under \<open>?\<close> is entered with that capture
  unset, so nothing is there to clear.
\<close>

datatype regex =
    Eps
  | Chr char
  | Cls "char \<Rightarrow> bool"
  | Seq regex regex
  | Star regex
  | Opt regex
  | Group nat regex

type_synonym captures = "nat \<Rightarrow> string option"

type_synonym mstate = "string \<times> captures"

text \<open>
  The iterations of \<open>r*\<close>: one more iteration first, stopping second. An iteration
  that consumes nothing is rejected, as in \<open>RepeatMatcher\<close>, so every iteration shortens
  the input, and the first argument, which starts as the length of the input, never runs
  out before the input does.
\<close>

fun star_iter :: "(string \<Rightarrow> captures \<Rightarrow> mstate list) \<Rightarrow> nat \<Rightarrow> string \<Rightarrow> captures \<Rightarrow> mstate list" where
  "star_iter f 0 s c = [(s, c)]"
| "star_iter f (Suc n) s c =
     concat (map (\<lambda>(s', c'). if length s' < length s then star_iter f n s' c' else []) (f s c))
     @ [(s, c)]"

primrec matches :: "regex \<Rightarrow> string \<Rightarrow> captures \<Rightarrow> mstate list" where
  "matches Eps s c = [(s, c)]"
| "matches (Chr a) s c = (case s of [] \<Rightarrow> [] | x # r \<Rightarrow> if x = a then [(r, c)] else [])"
| "matches (Cls p) s c = (case s of [] \<Rightarrow> [] | x # r \<Rightarrow> if p x then [(r, c)] else [])"
| "matches (Seq r1 r2) s c = concat (map (\<lambda>(s', c'). matches r2 s' c') (matches r1 s c))"
| "matches (Star r) s c = star_iter (matches r) (length s) s c"
| "matches (Opt r) s c = matches r s c @ [(s, c)]"
| "matches (Group n r) s c =
     map (\<lambda>(s', c'). (s', c'(n \<mapsto> take (length s - length s') s))) (matches r s c)"

definition Plus :: "regex \<Rightarrow> regex" where
  "Plus r = Seq r (Star r)"

definition seqs :: "regex list \<Rightarrow> regex" where
  "seqs rs = foldr Seq rs Eps"

text \<open>
  \<open>RegExpBuiltinExec\<close> for a pattern without flags, as \<open>String.prototype.match\<close>
  calls it: the match is tried at every index from 0 on, and the first index with a
  match gives the result; \<open>None\<close> is \<open>null\<close>. Only the captures are kept.
\<close>

fun regex_exec :: "regex \<Rightarrow> string \<Rightarrow> captures option" where
  "regex_exec r [] = (case matches r [] Map.empty of [] \<Rightarrow> None | (s', c) # _ \<Rightarrow> Some c)"
| "regex_exec r (x # xs) =
     (case matches r (x # xs) Map.empty of [] \<Rightarrow> regex_exec r xs | (s', c) # _ \<Rightarrow> Some c)"

section \<open>The colour module\<close>

text \<open>\<open>[\d.]\<close>\<close>

definition digit_or_dot :: "char \<Rightarrow> bool" where
  "digit_or_dot c = (is_digit c \<or> c = CHR ''.'')"

text \<open>
  \<^verbatim>\<open>/oklch\(\s*([\d.]+)%?\s+([\d.]+)\s+([\d.]+)\s*(?:\/\s*([\d.]+))?\s*\)/\<close>
\<close>

definition oklch_pattern :: regex where
  "oklch_pattern =
     seqs [Chr CHR ''o'', Chr CHR ''k'', Chr CHR ''l'', Chr CHR ''c'', Chr CHR ''h'',
           Chr CHR ''('',
           Star (Cls is_space),
           Group 1 (Plus (Cls digit_or_dot)),
           Opt (Chr CHR ''%''),
           Plus (Cls is_space),
           Group 2 (Plus (Cls digit_or_dot)),
           Plus (Cls is_space),
           Group 3 (Plus (Cls digit_or_dot)),
           Star (Cls is_space),
           Opt (seqs [Chr CHR ''/'', Star (Cls is_space), Group 4 (Plus (Cls digit_or_dot))]),
           Star (Cls is_space),
           Chr CHR '')'']"

record oklch =
  L :: number
  C :: number
  H :: number
  A :: number

text \<open>
  \<open>match[i]\<close> as \<open>parseFloat\<close> receives it: a group that took no part in the match
  is \<open>undefined\<close>, which \<open>parseFloat\<close> converts to the string \<open>undefined\<close>.
\<close>

definition group_string :: "captures \<Rightarrow> nat \<Rightarrow> string" where
  "group_string m i = (case m i of None \<Rightarrow> ''undefined'' | Some s \<Rightarrow> s)"

definition parseOklch :: "string \<Rightarrow> oklch option" where
  "parseOklch oklchColor =
     (case regex_exec oklch_pattern oklchColor of
        None \<Rightarrow> None
      | Some match \<Rightarrow>
          (let l = parseFloat (group_string match 1);
               l' = (if js_gt l (Finite 1) then js_div l (Finite 100) else l)
           in Some \<lparr>L = l',
                    C = parseFloat (group_string match 2),
                    H = parseFloat (group_string match 3),
                    A = (case match 4 of
                           None \<Rightarrow> Finite 1
                         | Some a \<Rightarrow> if a = [] then Finite 1 else parseFloat a)\<rparr>))"

definition formatOklch :: "number \<Rightarrow> number \<Rightarrow> number \<Rightarrow> number \<Rightarrow> string" where
  "formatOklch l c h a =
     ''oklch('' @ toFixed (js_mul l (Finite 100)) 2 @ ''% '' @ toFixed c 4 @ '' ''
       @ toFixed h 2 @ '' / '' @ numToString a @ '')''"

text \<open>
  A derivation function returns its string together with what it wrote to the console:
  one \<open>console.warn\<close> entry, the message and the colour, when the colour does not
  parse, nothing otherwise. No path of the four functions throws.
\<close>

type_synonym console = "(string \<times> string) list"

text \<open>An optional parameter: \<open>None\<close> is an argument left out, which takes the default.\<close>

definition default_arg :: "number \<Rightarrow> number option \<Rightarrow> number" where
  "default_arg d v = (case v of None \<Rightarrow> d | Some x \<Rightarrow> x)"

text \<open>The lightness and chroma that \<open>generateCardColor\<close> passes to the formatter.\<close>

definition card_newL :: "bool \<Rightarrow> number \<Rightarrow> number \<Rightarrow> number" where
  "card_newL isLight l lightnessBoost =
     (if isLight then
        Math_max (Finite 0)
          (js_sub l (js_mul (js_mul (js_add (js_sub (Finite 1) l) (Finite 0.12)) lightnessBoost)
                       (Finite 5)))
      else Math_min (Finite 1) (js_add l (js_mul l lightnessBoost)))"

definition card_newC :: "bool \<Rightarrow> number \<Rightarrow> number \<Rightarrow> number" where
  "card_newC isLight c chromaMultiplier =
     (if isLight then Math_min (Finite 0.37) (js_mul c chromaMultiplier)
      else Math_min (Finite 0.37) (js_mul c chromaMultiplier))"

definition generateCardColor ::
    "string \<Rightarrow> bool \<Rightarrow> number option \<Rightarrow> number option \<Rightarrow> string \<times> console" where
  "generateCardColor backgroundColor isLight lightnessBoost chromaMultiplier =
     (let lb = default_arg (Finite 0.2) lightnessBoost;
          cm = default_arg (Finite 1.2) chromaMultiplier
      in case parseOklch backgroundColor of
           None \<Rightarrow>
             (backgroundColor, [(''Could not parse OKLCH color for card:'', backgroundColor)])
         | Some parsed \<Rightarrow>
             (formatOklch (card_newL isLight (L parsed) lb) (card_newC isLight (C parsed) cm)
                (H parsed) (A parsed), []))"

text \<open>The lightness and chroma that \<open>generateBorderColor\<close> passes to the formatter.\<close>

definition border_newL :: "bool \<Rightarrow> number \<Rightarrow> number \<Rightarrow> number" where
  "border_newL isLight l lightnessBoost =
     (if isLight then
        Math_max (Finite 0)
          (js_sub l (js_mul (js_mul (js_add (js_sub (Finite 1) l) (Finite 0.15)) lightnessBoost)
                       (Finite 2)))
      else Math_min (Finite 1) (js_add l (js_mul l lightnessBoost)))"

definition border_newC :: "bool \<Rightarrow> number \<Rightarrow> number \<Rightarrow> number" where
  "border_newC isLight c chromaMultiplier =
     (if isLight then Math_min (Finite 0.37) (js_mul c chromaMultiplier)
      else Math_min (Finite 0.37) (js_mul c chromaMultiplier))"

definition generateBorderColor ::
    "string \<Rightarrow> bool \<Rightarrow> number option \<Rightarrow> number option \<Rightarrow> string \<times> console" where
  "generateBorderColor backgroundColor isLight lightnessBoost chromaMultiplier =
     (let lb = default_arg (Finite 0.75) lightnessBoost;
          cm = default_arg (Finite 1.85) chromaMultiplier
      in case parseOklch backgroundColor of
           None \<Rightarrow>
             (backgroundColor, [(''Could not parse OKLCH color for border:'', backgroundColor)])
         | Some parsed \<Rightarrow>
             (formatOklch (border_newL isLight (L parsed) lb) (border_newC isLight (C parsed) cm)
                (H parsed) (A parsed), []))"

text \<open>The lightness and chroma of \<open>generateAccentColor\<close>.\<close>

definition accent_newL :: "number \<Rightarrow> number \<Rightarrow> number" where
  "accent_newL l lightnessReduction =
     Math_max (Finite 0.05) (js_sub l (js_mul lightnessReduction l))"

definition accent_newC :: "number \<Rightarrow> number \<Rightarrow> number" where
  "accent_newC c chromaBoost = Math_min (Finite 0.37) (js_add c chromaBoost)"

definition generateAccentColor ::
    "string \<Rightarrow> number option \<Rightarrow> number option \<Rightarrow> string \<times> console" where
  "generateAccentColor color lightnessReduction chromaBoost =
     (let lr = default_arg (Finite 0.25) lightnessReduction;
          cb = default_arg (Finite 0.05) chromaBoost
      in case parseOklch color of
           None \<Rightarrow> (color, [(''Could not parse OKLCH color for accent:'', color)])
         | Some parsed \<Rightarrow>
             (formatOklch (accent_newL (L parsed) lr) (accent_newC (C parsed) cb)
                (H parsed) (A parsed), []))"

text \<open>The lightness and chroma of \<open>generateButtonBorderColor\<close>.\<close>

definition button_newL :: "number \<Rightarrow> number \<Rightarrow> number" where
  "button_newL l lightnessReduction =
     Math_max (Finite 0.05) (js_sub l (js_mul lightnessReduction l))"

definition button_newC :: "number \<Rightarrow> number \<Rightarrow> number" where
  "button_newC c chromaBoost = Math_min (Finite 0.37) (js_add c chromaBoost)"

definition generateButtonBorderColor ::
    "string \<Rightarrow> number option \<Rightarrow> number option \<Rightarrow> string \<times> console" where
  "generateButtonBorderColor oklchColor lightnessReduction chromaBoost =
     (let lr = default_arg (Finite 0.25) lightnessReduction;
          cb = default_arg (Finite 0.05) chromaBoost
      in case parseOklch oklchColor of
           None \<Rightarrow> (oklchColor, [(''Could not parse OKLCH color:'', oklchColor)])
         | Some parsed \<Rightarrow>
             (formatOklch (button_newL (L parsed) lr) (button_newC (C parsed) cb)
                (H parsed) (A parsed), []))"

section \<open>The words of a pattern\<close>

text \<open>
  What a pattern can consume, without the order of backtracking and without captures:
  \<open>derives r w\<close> says that \<open>w\<close> is a word of \<open>r\<close>. It is used to show what
  the matcher cannot accept.
\<close>

inductive derives :: "regex \<Rightarrow> string \<Rightarrow> bool" where
  d_Eps: "derives Eps []"
| d_Chr: "derives (Chr a) [a]"
| d_Cls: "p x \<Longrightarrow> derives (Cls p) [x]"
| d_Seq: "derives r1 u \<Longrightarrow> derives r2 v \<Longrightarrow> derives (Seq r1 r2) (u @ v)"
| d_Star_stop: "derives (Star r) []"
| d_Star_step: "derives r u \<Longrightarrow> derives (Star r) v \<Longrightarrow> derives (Star r) (u @ v)"
| d_Opt_skip: "derives (Opt r) []"
| d_Opt_take: "derives r w \<Longrightarrow> derives (Opt r) w"
| d_Group: "derives r w \<Longrightarrow> derives (Group n r) w"

text \<open>The characters that can occur in a word of a pattern.\<close>

primrec alphabet :: "regex \<Rightarrow> char set" where
  "alphabet Eps = {}"
| "alphabet (Chr a) = {a}"
| "alphabet (Cls p) = {x. p x}"
| "alphabet (Seq r1 r2) = alphabet r1 \<union> alphabet r2"
| "alphabet (Star r) = alphabet r"
| "alphabet (Opt r) = alphabet r"
| "alphabet (Group n r) = alphabet r"

text \<open>The capture groups of a pattern, each with the pattern it encloses.\<close>

primrec groups :: "regex \<Rightarrow> (nat \<times> regex) set" where
  "groups Eps = {}"
| "groups (Chr a) = {}"
| "groups (Cls p) = {}"
| "groups (Seq r1 r2) = groups r1 \<union> groups r2"
| "groups (Star r) = groups r"
| "groups (Opt r) = groups r"
| "groups (Group n r) = insert (n, r) (groups r)"

text \<open>The part of the pattern between \<^verbatim>\<open>oklch\(\<close> and the closing \<^verbatim>\<open>\)\<close>.\<close>

definition oklch_middle :: "regex list" where
  "oklch_middle =
     [Star (Cls is_space),
      Group 1 (Plus (Cls digit_or_dot)),
      Opt (Chr CHR ''%''),
      Plus (Cls is_space),
      Group 2 (Plus (Cls digit_or_dot)),
      Plus (Cls is_space),
      Group 3 (Plus (Cls digit_or_dot)),
      Star (Cls is_space),
      Opt (seqs [Chr CHR ''/'', Star (Cls is_space), Group 4 (Plus (Cls digit_or_dot))]),
      Star (Cls is_space)]"

section \<open>Arithmetic of the special values\<close>





lemma Math_max_Finite: "Math_max (Finite x) (Finite y) = Finite (max x y)"
  by (simp add: Math_max_def max_def)

lemma Math_min_Finite: "Math_min (Finite x) (Finite y) = Finite (min x y)"
  by (auto simp add: Math_min_def min_def)

lemma js_sub_Finite: "js_sub (Finite x) (Finite y) = Finite (x - y)"
  by (simp add: js_sub_def)

lemma js_add_NaN: "js_add a b = NaN \<longleftrightarrow>
    a = NaN \<or> b = NaN \<or> (a = PosInf \<and> b = NegInf) \<or> (a = NegInf \<and> b = PosInf)"
  by (cases a; cases b) simp_all

lemma js_mul_NaN: "js_mul a b = NaN \<longleftrightarrow>
    a = NaN \<or> b = NaN \<or> (a = Finite 0 \<and> (b = PosInf \<or> b = NegInf))
    \<or> ((a = PosInf \<or> a = NegInf) \<and> b = Finite 0)"
  by (cases a; cases b) (auto simp: signed_inf_def)

lemma js_neg_NaN: "js_neg a = NaN \<longleftrightarrow> a = NaN"
  by (cases a) simp_all

lemma js_le_Finite: "js_le (Finite x) (Finite y) \<longleftrightarrow> x \<le> y"
  by (auto simp: js_le_def)

lemma js_ge_Finite: "js_ge (Finite x) (Finite y) \<longleftrightarrow> y \<le> x"
  by (auto simp: js_ge_def js_le_def)

section \<open>The derivation functions on a colour that parses\<close>


section \<open>Claims about the fallback and the two darkening entry points\<close>

text \<open>
  C2. When \<open>parseOklch\<close> returns \<open>null\<close> for a string, each of the four derivation
  functions returns that string itself, whatever the other arguments are, and writes one
  warning to the console. The functions are total: no path throws.
\<close>

theorem unparseable_returns_input:
  assumes "parseOklch s = None"
  shows "generateCardColor s isLight lb cm
           = (s, [(''Could not parse OKLCH color for card:'', s)])
       \<and> generateBorderColor s isLight lb cm
           = (s, [(''Could not parse OKLCH color for border:'', s)])
       \<and> generateAccentColor s lr cb
           = (s, [(''Could not parse OKLCH color for accent:'', s)])
       \<and> generateButtonBorderColor s lr cb
           = (s, [(''Could not parse OKLCH color:'', s)])"
  using assms
  by (simp add: generateCardColor_def generateBorderColor_def generateAccentColor_def
      generateButtonBorderColor_def)

theorem unparseable_returns_input_witness:
  "parseOklch ''not-a-color'' = None
   \<and> fst (generateCardColor ''not-a-color'' True None None) = ''not-a-color''
   \<and> fst (generateBorderColor ''not-a-color'' False None None) = ''not-a-color''
   \<and> fst (generateAccentColor ''not-a-color'' None None) = ''not-a-color''
   \<and> fst (generateButtonBorderColor ''not-a-color'' None None) = ''not-a-color''"
proof -
  have h: "parseOklch ''not-a-color'' = None"
    by code_simp
  show ?thesis
    using h unparseable_returns_input [OF h, of True None None None None]
      unparseable_returns_input [OF h, of False None None None None]
    by simp
qed

text \<open>
  C8. \<open>generateAccentColor\<close> and \<open>generateButtonBorderColor\<close> return the same string
  for every colour string and every pair of optional arguments, and an argument left out
  is \<open>0.25\<close> for \<open>lightnessReduction\<close> and \<open>0.05\<close> for \<open>chromaBoost\<close> in both. (Their
  console warnings on a colour that does not parse carry different texts.)
\<close>

theorem accent_button_same:
  "fst (generateAccentColor s lr cb) = fst (generateButtonBorderColor s lr cb)
   \<and> generateAccentColor s None None
       = generateAccentColor s (Some (Finite 0.25)) (Some (Finite 0.05))
   \<and> generateButtonBorderColor s None None
       = generateButtonBorderColor s (Some (Finite 0.25)) (Some (Finite 0.05))"
  by (simp add: generateAccentColor_def generateButtonBorderColor_def default_arg_def
      accent_newL_def accent_newC_def button_newL_def button_newC_def split: option.splits)

section \<open>Claims about the clamps\<close>







section \<open>Claims about the card and border formulas\<close>

text \<open>
  C5. On a colour that parses to \<open>L, C, H, A\<close>, \<open>generateCardColor\<close> formats the
  lightness \<open>max(0, L - (1 - L + 0.12) * lightnessBoost * 5)\<close> when \<open>isLight\<close> holds
  and \<open>min(1, L + L * lightnessBoost)\<close> when it does not, the chroma
  \<open>min(0.37, C * chromaMultiplier)\<close> in both branches, and \<open>H\<close> and \<open>A\<close> as parsed;
  an argument left out is \<open>0.2\<close> for \<open>lightnessBoost\<close> and \<open>1.2\<close> for
  \<open>chromaMultiplier\<close>. On finite numbers the operations are those of the rationals.
\<close>

theorem card_formula:
  assumes "parseOklch s = Some p"
  shows "generateCardColor s True lbo cmo =
           (formatOklch
              (Math_max (Finite 0)
                 (js_sub (L p)
                    (js_mul (js_mul (js_add (js_sub (Finite 1) (L p)) (Finite 0.12))
                               (default_arg (Finite 0.2) lbo)) (Finite 5))))
              (Math_min (Finite 0.37) (js_mul (C p) (default_arg (Finite 1.2) cmo)))
              (H p) (A p), [])
       \<and> generateCardColor s False lbo cmo =
           (formatOklch
              (Math_min (Finite 1) (js_add (L p) (js_mul (L p) (default_arg (Finite 0.2) lbo))))
              (Math_min (Finite 0.37) (js_mul (C p) (default_arg (Finite 1.2) cmo)))
              (H p) (A p), [])
       \<and> generateCardColor s isLight None None =
           generateCardColor s isLight (Some (Finite 0.2)) (Some (Finite 1.2))
       \<and> (\<forall>l c b m. L p = Finite l \<and> C p = Finite c \<longrightarrow>
             generateCardColor s True (Some (Finite b)) (Some (Finite m)) =
               (formatOklch (Finite (max 0 (l - (1 - l + 0.12) * b * 5)))
                  (Finite (min 0.37 (c * m))) (H p) (A p), [])
           \<and> generateCardColor s False (Some (Finite b)) (Some (Finite m)) =
               (formatOklch (Finite (min 1 (l + l * b)))
                  (Finite (min 0.37 (c * m))) (H p) (A p), []))"
  using assms
  by (simp add: generateCardColor_def card_newL_def card_newC_def default_arg_def
      Math_max_Finite Math_min_Finite js_sub_Finite)

text \<open>White as the base of a light theme: the card has lightness \<open>0.88\<close>.\<close>

theorem card_formula_witness:
  "parseOklch ''oklch(100% 0 0)''
     = Some \<lparr>L = Finite 1, C = Finite 0, H = Finite 0, A = Finite 1\<rparr>
   \<and> generateCardColor ''oklch(100% 0 0)'' True None None
       = (''oklch(88.00% 0.0000 0.00 / 1)'', [])"
proof -
  have h: "parseOklch ''oklch(100% 0 0)''
      = Some \<lparr>L = Finite 1, C = Finite 0, H = Finite 0, A = Finite 1\<rparr>"
    by code_simp
  have f: "formatOklch (Finite (88/100)) (Finite 0) (Finite 0) (Finite 1)
      = ''oklch(88.00% 0.0000 0.00 / 1)''"
    by code_simp
  have "generateCardColor ''oklch(100% 0 0)'' True None None =
     (formatOklch (Finite (88/100)) (Finite 0) (Finite 0) (Finite 1), [])"
    using card_formula [OF h, of None None, THEN conjunct1]
    by (simp add: default_arg_def Math_max_Finite Math_min_Finite js_sub_Finite)
  with h f show ?thesis by simp
qed

text \<open>
  C6. On a colour that parses to \<open>L, C, H, A\<close>, \<open>generateBorderColor\<close> formats the
  lightness \<open>max(0, L - (1 - L + 0.15) * lightnessBoost * 2)\<close> when \<open>isLight\<close> holds
  and \<open>min(1, L + L * lightnessBoost)\<close> when it does not; an argument left out is
  \<open>0.75\<close> for \<open>lightnessBoost\<close> and \<open>1.85\<close> for \<open>chromaMultiplier\<close>.
\<close>

theorem border_formula:
  assumes "parseOklch s = Some p"
  shows "generateBorderColor s True lbo cmo =
           (formatOklch
              (Math_max (Finite 0)
                 (js_sub (L p)
                    (js_mul (js_mul (js_add (js_sub (Finite 1) (L p)) (Finite 0.15))
                               (default_arg (Finite 0.75) lbo)) (Finite 2))))
              (Math_min (Finite 0.37) (js_mul (C p) (default_arg (Finite 1.85) cmo)))
              (H p) (A p), [])
       \<and> generateBorderColor s False lbo cmo =
           (formatOklch
              (Math_min (Finite 1) (js_add (L p) (js_mul (L p) (default_arg (Finite 0.75) lbo))))
              (Math_min (Finite 0.37) (js_mul (C p) (default_arg (Finite 1.85) cmo)))
              (H p) (A p), [])
       \<and> generateBorderColor s isLight None None =
           generateBorderColor s isLight (Some (Finite 0.75)) (Some (Finite 1.85))
       \<and> (\<forall>l c b m. L p = Finite l \<and> C p = Finite c \<longrightarrow>
             generateBorderColor s True (Some (Finite b)) (Some (Finite m)) =
               (formatOklch (Finite (max 0 (l - (1 - l + 0.15) * b * 2)))
                  (Finite (min 0.37 (c * m))) (H p) (A p), [])
           \<and> generateBorderColor s False (Some (Finite b)) (Some (Finite m)) =
               (formatOklch (Finite (min 1 (l + l * b)))
                  (Finite (min 0.37 (c * m))) (H p) (A p), []))"
  using assms
  by (simp add: generateBorderColor_def border_newL_def border_newC_def default_arg_def
      Math_max_Finite Math_min_Finite js_sub_Finite)

text \<open>White as the base of a light theme: the border has lightness \<open>0.775\<close>.\<close>

theorem border_formula_witness:
  "parseOklch ''oklch(100% 0.1 0)''
     = Some \<lparr>L = Finite 1, C = Finite (1/10), H = Finite 0, A = Finite 1\<rparr>
   \<and> generateBorderColor ''oklch(100% 0.1 0)'' True None None
       = (''oklch(77.50% 0.1850 0.00 / 1)'', [])"
proof -
  have h: "parseOklch ''oklch(100% 0.1 0)''
      = Some \<lparr>L = Finite 1, C = Finite (1/10), H = Finite 0, A = Finite 1\<rparr>"
    by code_simp
  have f: "formatOklch (Finite (775/1000)) (Finite (185/1000)) (Finite 0) (Finite 1)
      = ''oklch(77.50% 0.1850 0.00 / 1)''"
    by code_simp
  have "generateBorderColor ''oklch(100% 0.1 0)'' True None None =
     (formatOklch (Finite (775/1000)) (Finite (185/1000)) (Finite 0) (Finite 1), [])"
    using border_formula [OF h, of None None, THEN conjunct1]
    by (simp add: default_arg_def Math_max_Finite Math_min_Finite js_sub_Finite)
  with h f show ?thesis by simp
qed

section \<open>What the matcher can accept\<close>

lemma star_iter_sound:
  assumes f: "\<And>s c s' c'. (s', c') \<in> set (f s c) \<Longrightarrow> \<exists>w. s = w @ s' \<and> derives r w"
  shows "(s', c') \<in> set (star_iter f n s c) \<Longrightarrow> \<exists>w. s = w @ s' \<and> derives (Star r) w"
proof (induction n arbitrary: s c)
  case 0
  then show ?case by (auto intro: d_Star_stop)
next
  case (Suc n)
  from Suc.prems consider (stop) "s' = s" | (step) s1 c1 where "(s1, c1) \<in> set (f s c)"
      "(s', c') \<in> set (star_iter f n s1 c1)"
    by (auto split: if_splits)
  then show ?case
  proof cases
    case stop
    then show ?thesis by (auto intro: d_Star_stop)
  next
    case step
    from f [OF step(1)] obtain u where u: "s = u @ s1" "derives r u" by blast
    from Suc.IH [OF step(2)] obtain v where v: "s1 = v @ s'" "derives (Star r) v" by blast
    from u v have "s = (u @ v) @ s'" "derives (Star r) (u @ v)"
      by (auto intro: d_Star_step)
    then show ?thesis by blast
  qed
qed

lemma matches_sound:
  "(s', c') \<in> set (matches r s c) \<Longrightarrow> \<exists>w. s = w @ s' \<and> derives r w"
proof (induction r arbitrary: s c s' c')
  case Eps
  then show ?case by (auto intro: derives.intros)
next
  case (Chr a)
  then show ?case by (auto intro: derives.intros split: list.splits if_splits)
next
  case (Cls p)
  then show ?case by (auto intro: derives.intros split: list.splits if_splits)
next
  case (Seq r1 r2)
  from Seq.prems obtain s1 c1 where 1: "(s1, c1) \<in> set (matches r1 s c)"
      and 2: "(s', c') \<in> set (matches r2 s1 c1)"
    by auto
  from Seq.IH(1) [OF 1] obtain u where u: "s = u @ s1" "derives r1 u" by blast
  from Seq.IH(2) [OF 2] obtain v where v: "s1 = v @ s'" "derives r2 v" by blast
  from u v have "s = (u @ v) @ s'" "derives (Seq r1 r2) (u @ v)"
    by (auto intro: d_Seq)
  then show ?case by blast
next
  case (Star r)
  then show ?case using star_iter_sound [of "matches r" r] by auto
next
  case (Opt r)
  then show ?case by (auto intro: derives.intros dest!: Opt.IH)
next
  case (Group n r)
  then show ?case by (auto intro: derives.intros dest!: Group.IH)
qed

lemma regex_exec_sound:
  "regex_exec r s = Some c \<Longrightarrow> \<exists>pre w post. s = pre @ w @ post \<and> derives r w"
proof (induction s)
  case Nil
  then obtain s' where "(s', c) \<in> set (matches r [] Map.empty)"
    by (auto split: list.splits)
  from matches_sound [OF this] show ?case by (metis append_Nil)
next
  case (Cons x xs)
  show ?case
  proof (cases "matches r (x # xs) Map.empty")
    case Nil
    with Cons.prems have "regex_exec r xs = Some c" by simp
    from Cons.IH [OF this] obtain pre w post where "xs = pre @ w @ post" "derives r w" by blast
    then have "x # xs = (x # pre) @ w @ post" "derives r w" by simp_all
    then show ?thesis by blast
  next
    case (Cons a list)
    then obtain s' c' where "(s', c') \<in> set (matches r (x # xs) Map.empty)"
      by (cases a) auto
    from matches_sound [OF this] show ?thesis by (metis append_Nil)
  qed
qed

lemma derives_alphabet: "derives r w \<Longrightarrow> set w \<subseteq> alphabet r"
  by (induction rule: derives.induct) auto

inductive_cases derives_EpsE: "derives Eps w"
inductive_cases derives_ChrE: "derives (Chr a) w"
inductive_cases derives_SeqE: "derives (Seq r1 r2) w"

lemma derives_seqs_Cons:
  "derives (seqs (r # rs)) w \<Longrightarrow> \<exists>u v. w = u @ v \<and> derives r u \<and> derives (seqs rs) v"
  by (auto simp: seqs_def elim!: derives_SeqE)

lemma derives_seqs_append:
  "derives (seqs (rs @ rs')) w \<Longrightarrow> \<exists>u v. w = u @ v \<and> derives (seqs rs) u \<and> derives (seqs rs') v"
proof (induction rs arbitrary: w)
  case Nil
  then show ?case by (auto simp: seqs_def intro: d_Eps)
next
  case (Cons r rs)
  from derives_seqs_Cons [of r "rs @ rs'" w] Cons.prems
  obtain u v where uv: "w = u @ v" "derives r u" "derives (seqs (rs @ rs')) v" by auto
  from Cons.IH [OF uv(3)] obtain v1 v2 where v: "v = v1 @ v2" "derives (seqs rs) v1" "derives (seqs rs') v2"
    by blast
  have "derives (seqs (r # rs)) (u @ v1)"
    using uv(2) v(2) by (auto simp: seqs_def intro: d_Seq)
  with uv v show ?case by (metis append.assoc)
qed

lemma derives_seqs_Chrs:
  "derives (seqs (map Chr cs)) w \<Longrightarrow> w = cs"
proof (induction cs arbitrary: w)
  case Nil
  then show ?case by (auto simp: seqs_def elim: derives_EpsE)
next
  case (Cons a cs)
  from derives_seqs_Cons [of "Chr a" "map Chr cs" w] Cons.prems
  obtain u v where "w = u @ v" "derives (Chr a) u" "derives (seqs (map Chr cs)) v" by auto
  then show ?case using Cons.IH by (auto elim: derives_ChrE)
qed

lemma alphabet_seqs: "alphabet (seqs rs) = (\<Union>r \<in> set rs. alphabet r)"
  by (induction rs) (auto simp: seqs_def)

lemma oklch_pattern_split:
  "oklch_pattern = seqs (map Chr ''oklch('' @ oklch_middle @ map Chr '')'')"
  by (simp add: oklch_pattern_def oklch_middle_def)

lemma alphabet_middle:
  "alphabet (seqs oklch_middle) = {x. is_space x \<or> digit_or_dot x \<or> x = CHR ''%'' \<or> x = CHR ''/''}"
  by (auto simp: alphabet_seqs oklch_middle_def Plus_def seqs_def)

lemma derives_oklch_pattern:
  assumes "derives oklch_pattern w"
  shows "\<exists>mid. w = ''oklch('' @ mid @ '')''
           \<and> set mid \<subseteq> {x. is_space x \<or> digit_or_dot x \<or> x = CHR ''%'' \<or> x = CHR ''/''}"
proof -
  from assms obtain u v where 1: "w = u @ v" "derives (seqs (map Chr ''oklch('')) u"
      "derives (seqs (oklch_middle @ map Chr '')'')) v"
    unfolding oklch_pattern_split using derives_seqs_append by blast
  from 1(3) obtain mid t where 2: "v = mid @ t" "derives (seqs oklch_middle) mid"
      "derives (seqs (map Chr '')'')) t"
    using derives_seqs_append by blast
  from 1(2) have u: "u = ''oklch(''" by (rule derives_seqs_Chrs)
  from 2(3) have t: "t = '')''" by (rule derives_seqs_Chrs)
  from derives_alphabet [OF 2(2)] have "set mid \<subseteq> alphabet (seqs oklch_middle)" .
  with 1(1) 2(1) u t show ?thesis unfolding alphabet_middle by blast
qed

lemma first_occurrence:
  "x \<notin> set u \<Longrightarrow> x \<notin> set u' \<Longrightarrow> u @ x # v = u' @ x # v' \<Longrightarrow> u = u' \<and> v = v'"
proof (induction u arbitrary: u')
  case Nil
  then show ?case by (cases u') auto
next
  case (Cons a u)
  then show ?case by (cases u') auto
qed

lemma no_match_with_other_char:
  assumes x: "x \<in> set body" "\<not> is_space x" "\<not> digit_or_dot x" "x \<noteq> CHR ''%''" "x \<noteq> CHR ''/''"
    and body: "CHR ''('' \<notin> set body" "CHR '')'' \<notin> set body"
    and around: "CHR ''('' \<notin> set pre" "CHR ''('' \<notin> set post"
  shows "regex_exec oklch_pattern (pre @ ''oklch('' @ body @ '')'' @ post) = None"
proof (rule ccontr)
  assume "regex_exec oklch_pattern (pre @ ''oklch('' @ body @ '')'' @ post) \<noteq> None"
  then obtain c where "regex_exec oklch_pattern (pre @ ''oklch('' @ body @ '')'' @ post) = Some c"
    by blast
  from regex_exec_sound [OF this] obtain pre' w post'
    where s: "pre @ ''oklch('' @ body @ '')'' @ post = pre' @ w @ post'"
      and w: "derives oklch_pattern w"
    by blast
  from derives_oklch_pattern [OF w] obtain mid where mid: "w = ''oklch('' @ mid @ '')''"
      "set mid \<subseteq> {x. is_space x \<or> digit_or_dot x \<or> x = CHR ''%'' \<or> x = CHR ''/''}"
    by blast
  have l: "CHR ''('' \<notin> set (pre @ ''oklch'')" using around(1) by simp
  have eq: "(pre @ ''oklch'') @ CHR ''('' # (body @ '')'' @ post)
      = (pre' @ ''oklch'') @ CHR ''('' # (mid @ '')'' @ post')"
    using s mid(1) by simp
  have pre': "CHR ''('' \<notin> set pre'"
  proof
    assume "CHR ''('' \<in> set pre'"
    then obtain p1 p2 where p: "pre' = p1 @ CHR ''('' # p2" "CHR ''('' \<notin> set p1"
      by (meson split_list_first)
    have "(pre @ ''oklch'') @ CHR ''('' # (body @ '')'' @ post) = p1 @ CHR ''('' # (p2 @ w @ post')"
      using s p(1) by simp
    with l p(2) have "body @ '')'' @ post = p2 @ w @ post'"
      using first_occurrence [where x = "CHR ''(''" and u = "pre @ ''oklch''" and u' = p1
          and v = "body @ '')'' @ post" and v' = "p2 @ w @ post'"]
      by blast
    then have "CHR ''('' \<in> set (body @ '')'' @ post)" using mid(1) by simp
    with body around(2) show False by simp
  qed
  then have "CHR ''('' \<notin> set (pre' @ ''oklch'')" by simp
  with l eq have "body @ '')'' @ post = mid @ '')'' @ post'"
    using first_occurrence [where x = "CHR ''(''" and u = "pre @ ''oklch''" and u' = "pre' @ ''oklch''"
        and v = "body @ '')'' @ post" and v' = "mid @ '')'' @ post'"]
    by blast
  then have "body @ CHR '')'' # post = mid @ CHR '')'' # post'" by simp
  moreover have "CHR '')'' \<notin> set mid"
    using mid(2) by (auto simp: is_space_def digit_or_dot_def is_digit_def)
  ultimately have "body = mid"
    using body(2) first_occurrence [where x = "CHR '')''" and u = body and u' = mid
        and v = post and v' = post'] by blast
  with x mid(2) show False by auto
qed

section \<open>What the captures hold\<close>

lemma star_iter_captures:
  assumes f: "\<And>s c s' c'. (s', c') \<in> set (f s c) \<Longrightarrow> c' n = Some a \<Longrightarrow>
                c n = Some a \<or> (\<exists>g. (n, g) \<in> G \<and> derives g a)"
  shows "(s', c') \<in> set (star_iter f k s c) \<Longrightarrow> c' n = Some a \<Longrightarrow>
           c n = Some a \<or> (\<exists>g. (n, g) \<in> G \<and> derives g a)"
proof (induction k arbitrary: s c)
  case 0
  then show ?case by auto
next
  case (Suc k)
  from Suc.prems(1) consider (stop) "c' = c" | (step) s1 c1 where "(s1, c1) \<in> set (f s c)"
      "(s', c') \<in> set (star_iter f k s1 c1)"
    by (auto split: if_splits)
  then show ?case
  proof cases
    case stop
    with Suc.prems show ?thesis by simp
  next
    case step
    from Suc.IH [OF step(2) Suc.prems(2)]
    show ?thesis using f [OF step(1)] by blast
  qed
qed

lemma matches_captures:
  "(s', c') \<in> set (matches r s c) \<Longrightarrow> c' n = Some a \<Longrightarrow>
     c n = Some a \<or> (\<exists>g. (n, g) \<in> groups r \<and> derives g a)"
proof (induction r arbitrary: s c s' c')
  case (Seq r1 r2)
  from Seq.prems(1) obtain s1 c1 where 1: "(s1, c1) \<in> set (matches r1 s c)"
      and 2: "(s', c') \<in> set (matches r2 s1 c1)"
    by auto
  from Seq.IH(2) [OF 2 Seq.prems(2)] Seq.IH(1) [OF 1]
  show ?case by auto
next
  case (Star r)
  have "c n = Some a \<or> (\<exists>g. (n, g) \<in> groups r \<and> derives g a)"
  proof (rule star_iter_captures [where f = "matches r" and G = "groups r" and n = n and a = a
        and s' = s' and c' = c' and k = "length s" and s = s and c = c])
    fix t d t' d'
    assume "(t', d') \<in> set (matches r t d)" "d' n = Some a"
    then show "d n = Some a \<or> (\<exists>g. (n, g) \<in> groups r \<and> derives g a)"
      by (rule Star.IH)
  next
    show "(s', c') \<in> set (star_iter (matches r) (length s) s c)"
      using Star.prems(1) by simp
  next
    show "c' n = Some a" by (rule Star.prems(2))
  qed
  then show ?case by simp
next
  case (Opt r)
  from Opt.prems(1) have "(s', c') \<in> set (matches r s c) \<or> c' = c" by auto
  then show ?case using Opt.IH Opt.prems(2) by auto
next
  case (Group m r)
  from Group.prems(1) obtain c1 where 1: "(s', c1) \<in> set (matches r s c)"
      and c': "c' = c1(m \<mapsto> take (length s - length s') s)"
    by auto
  from matches_sound [OF 1] obtain w where w: "s = w @ s'" "derives r w" by blast
  show ?case
  proof (cases "n = m")
    case True
    with c' Group.prems(2) w have "a = w" by simp
    with True w(2) show ?thesis by auto
  next
    case False
    with c' Group.prems(2) have "c1 n = Some a" by simp
    from Group.IH [OF 1 this] show ?thesis by auto
  qed
qed (auto split: list.splits if_splits)

lemma star_iter_dom:
  assumes f: "\<And>s c s' c'. (s', c') \<in> set (f s c) \<Longrightarrow> dom c \<subseteq> dom c'"
  shows "(s', c') \<in> set (star_iter f k s c) \<Longrightarrow> dom c \<subseteq> dom c'"
proof (induction k arbitrary: s c)
  case 0
  then show ?case by auto
next
  case (Suc k)
  from Suc.prems(1) consider (stop) "c' = c" | (step) s1 c1 where "(s1, c1) \<in> set (f s c)"
      "(s', c') \<in> set (star_iter f k s1 c1)"
    by (auto split: if_splits)
  then show ?case
  proof cases
    case stop
    then show ?thesis by simp
  next
    case step
    from Suc.IH [OF step(2)] f [OF step(1)] show ?thesis by blast
  qed
qed

lemma matches_dom: "(s', c') \<in> set (matches r s c) \<Longrightarrow> dom c \<subseteq> dom c'"
proof (induction r arbitrary: s c s' c')
  case (Seq r1 r2)
  from Seq.prems(1) obtain s1 c1 where 1: "(s1, c1) \<in> set (matches r1 s c)"
      and 2: "(s', c') \<in> set (matches r2 s1 c1)"
    by auto
  from Seq.IH(2) [OF 2] Seq.IH(1) [OF 1] show ?case by blast
next
  case (Star r)
  then show ?case using star_iter_dom [of "matches r"] by auto
next
  case (Opt r)
  from Opt.prems have "(s', c') \<in> set (matches r s c) \<or> c' = c" by auto
  then show ?case using Opt.IH by blast
next
  case (Group m r)
  from Group.prems(1) obtain c1 where 1: "(s', c1) \<in> set (matches r s c)"
      and c': "c' = c1(m \<mapsto> take (length s - length s') s)"
    by auto
  from Group.IH [OF 1] c' show ?case by auto
qed (auto split: list.splits if_splits)

lemma matches_seqs_Cons:
  "(s', c') \<in> set (matches (seqs (r # rs)) s c) \<Longrightarrow>
     \<exists>s1 c1. (s1, c1) \<in> set (matches r s c) \<and> (s', c') \<in> set (matches (seqs rs) s1 c1)"
  by (auto simp: seqs_def)

lemma group_in_seqs:
  "Group n g \<in> set rs \<Longrightarrow> (s', c') \<in> set (matches (seqs rs) s c) \<Longrightarrow> n \<in> dom c'"
proof (induction rs arbitrary: s c)
  case Nil
  then show ?case by simp
next
  case (Cons r rs)
  from matches_seqs_Cons [OF Cons.prems(2)] obtain s1 c1
    where 1: "(s1, c1) \<in> set (matches r s c)" and 2: "(s', c') \<in> set (matches (seqs rs) s1 c1)"
    by blast
  show ?case
  proof (cases "r = Group n g")
    case True
    with 1 have "n \<in> dom c1" by auto
    with matches_dom [OF 2] show ?thesis by blast
  next
    case False
    with Cons.prems(1) have "Group n g \<in> set rs" by simp
    from Cons.IH [OF this 2] show ?thesis .
  qed
qed

lemma regex_exec_matches:
  "regex_exec r s = Some c \<Longrightarrow> \<exists>t s'. (s', c) \<in> set (matches r t Map.empty)"
proof (induction s)
  case Nil
  then show ?case by (auto split: list.splits) (metis list.set_intros(1))
next
  case (Cons x xs)
  show ?case
  proof (cases "matches r (x # xs) Map.empty")
    case Nil
    with Cons show ?thesis by simp
  next
    case (Cons a list)
    with Cons.prems have "(fst a, c) \<in> set (matches r (x # xs) Map.empty)"
      by (cases a) auto
    then show ?thesis by blast
  qed
qed

inductive_cases derives_ClsE: "derives (Cls p) w"

lemma derives_Plus_Cls:
  assumes "derives (Plus (Cls p)) w"
  shows "w \<noteq> [] \<and> list_all p w"
proof -
  from assms obtain u v where "w = u @ v" "derives (Cls p) u"
    unfolding Plus_def by (auto elim: derives_SeqE)
  then have "w \<noteq> []" by (auto elim: derives_ClsE)
  moreover from derives_alphabet [OF assms] have "list_all p w"
    by (auto simp: Plus_def list_all_iff)
  ultimately show ?thesis by simp
qed

lemma oklch_groups:
  "groups oklch_pattern = {(1, Plus (Cls digit_or_dot)), (2, Plus (Cls digit_or_dot)),
     (3, Plus (Cls digit_or_dot)), (4, Plus (Cls digit_or_dot))}"
  by (auto simp: oklch_pattern_def seqs_def Plus_def)

lemma oklch_captures:
  assumes "regex_exec oklch_pattern s = Some m"
  shows "(\<exists>l. m 1 = Some l) \<and> (\<exists>c. m 2 = Some c) \<and> (\<exists>h. m 3 = Some h)
       \<and> (\<forall>n a. m n = Some a \<longrightarrow> a \<noteq> [] \<and> list_all digit_or_dot a)"
proof -
  from regex_exec_matches [OF assms] obtain t s'
    where t: "(s', m) \<in> set (matches oklch_pattern t Map.empty)" by blast
  have "Group 1 (Plus (Cls digit_or_dot)) \<in> set (map Chr ''oklch('' @ oklch_middle @ map Chr '')'')"
    "Group 2 (Plus (Cls digit_or_dot)) \<in> set (map Chr ''oklch('' @ oklch_middle @ map Chr '')'')"
    "Group 3 (Plus (Cls digit_or_dot)) \<in> set (map Chr ''oklch('' @ oklch_middle @ map Chr '')'')"
    by (simp_all add: oklch_middle_def)
  from this [THEN group_in_seqs, OF t [unfolded oklch_pattern_split]]
  have "1 \<in> dom m" "2 \<in> dom m" "3 \<in> dom m" .
  moreover have "a \<noteq> [] \<and> list_all digit_or_dot a" if "m n = Some a" for n a
    using matches_captures [OF t that] derives_Plus_Cls by (auto simp: oklch_groups)
  ultimately show ?thesis by blast
qed

section \<open>Claims about the parser\<close>

text \<open>
  C9. On a successful parse the first three groups took part in the match; \<open>L\<close> is the
  lightness literal divided by \<open>100\<close> exactly when the literal is greater than \<open>1\<close>
  and the literal itself otherwise, \<open>C\<close> and \<open>H\<close> are their literals, and \<open>A\<close> is
  \<open>1\<close> when the alpha group took no part and its literal when it did. Both
  \<open>oklch(50% 0.1 200)\<close> and \<open>oklch(0.5 0.1 200)\<close> parse to \<open>L = 0.5\<close>.
\<close>

theorem parse_result:
  "(parseOklch s = Some p \<longrightarrow>
      (\<exists>m l c h. regex_exec oklch_pattern s = Some m
         \<and> m 1 = Some l \<and> m 2 = Some c \<and> m 3 = Some h
         \<and> L p = (if js_gt (parseFloat l) (Finite 1) then js_div (parseFloat l) (Finite 100)
                   else parseFloat l)
         \<and> (\<forall>x. parseFloat l = Finite x \<longrightarrow> L p = Finite (if 1 < x then x / 100 else x))
         \<and> C p = parseFloat c \<and> H p = parseFloat h
         \<and> (m 4 = None \<longrightarrow> A p = Finite 1)
         \<and> (\<forall>a. m 4 = Some a \<longrightarrow> A p = parseFloat a)))
   \<and> parseOklch ''oklch(50% 0.1 200)''
       = Some \<lparr>L = Finite (1/2), C = Finite (1/10), H = Finite 200, A = Finite 1\<rparr>
   \<and> parseOklch ''oklch(0.5 0.1 200)''
       = Some \<lparr>L = Finite (1/2), C = Finite (1/10), H = Finite 200, A = Finite 1\<rparr>"
proof -
  have 1: "parseOklch ''oklch(50% 0.1 200)''
       = Some \<lparr>L = Finite (1/2), C = Finite (1/10), H = Finite 200, A = Finite 1\<rparr>"
    by code_simp
  have 2: "parseOklch ''oklch(0.5 0.1 200)''
       = Some \<lparr>L = Finite (1/2), C = Finite (1/10), H = Finite 200, A = Finite 1\<rparr>"
    by code_simp
  have 3: "\<exists>m l c h. regex_exec oklch_pattern s = Some m
         \<and> m 1 = Some l \<and> m 2 = Some c \<and> m 3 = Some h
         \<and> L p = (if js_gt (parseFloat l) (Finite 1) then js_div (parseFloat l) (Finite 100)
                   else parseFloat l)
         \<and> (\<forall>x. parseFloat l = Finite x \<longrightarrow> L p = Finite (if 1 < x then x / 100 else x))
         \<and> C p = parseFloat c \<and> H p = parseFloat h
         \<and> (m 4 = None \<longrightarrow> A p = Finite 1)
         \<and> (\<forall>a. m 4 = Some a \<longrightarrow> A p = parseFloat a)"
    if p: "parseOklch s = Some p"
  proof -
    from p obtain m where m: "regex_exec oklch_pattern s = Some m"
      by (auto simp: parseOklch_def split: option.splits)
    from oklch_captures [OF m] obtain l c h where g: "m 1 = Some l" "m 2 = Some c" "m 3 = Some h"
      and ne: "\<And>n a. m n = Some a \<Longrightarrow> a \<noteq> []"
      by blast
    from p m g have "L p = (if js_gt (parseFloat l) (Finite 1) then js_div (parseFloat l) (Finite 100)
                   else parseFloat l)" "C p = parseFloat c" "H p = parseFloat h"
       "m 4 = None \<longrightarrow> A p = Finite 1"
      by (auto simp: parseOklch_def group_string_def Let_def)
    moreover from this(1) have "\<forall>x. parseFloat l = Finite x \<longrightarrow> L p = Finite (if 1 < x then x / 100 else x)"
      by (auto simp: js_gt_def)
    moreover have "\<forall>a. m 4 = Some a \<longrightarrow> A p = parseFloat a"
      using p m ne [of 4] by (auto simp: parseOklch_def Let_def)
    ultimately show ?thesis using m g by (intro exI conjI) assumption+
  qed
  from 1 2 3 show ?thesis by blast
qed

text \<open>A literal of exactly \<open>1\<close> is not divided, with or without the percent sign.\<close>

theorem parse_result_witness:
  "parseOklch ''oklch(1% 0.1 200 / 0.5)''
       = Some \<lparr>L = Finite 1, C = Finite (1/10), H = Finite 200, A = Finite (1/2)\<rparr>
   \<and> (\<exists>m l. regex_exec oklch_pattern ''oklch(1% 0.1 200 / 0.5)'' = Some m \<and> m 1 = Some l
        \<and> Finite 1 = (if js_gt (parseFloat l) (Finite 1) then js_div (parseFloat l) (Finite 100)
                       else parseFloat l))"
proof -
  have h: "parseOklch ''oklch(1% 0.1 200 / 0.5)''
       = Some \<lparr>L = Finite 1, C = Finite (1/10), H = Finite 200, A = Finite (1/2)\<rparr>"
    by code_simp
  from parse_result [THEN conjunct1, rule_format, OF h]
  obtain m l where m: "regex_exec oklch_pattern ''oklch(1% 0.1 200 / 0.5)'' = Some m"
      "m 1 = Some l"
      "L \<lparr>L = Finite 1, C = Finite (1/10), H = Finite 200, A = Finite (1/2)\<rparr>
        = (if js_gt (parseFloat l) (Finite 1) then js_div (parseFloat l) (Finite 100)
           else parseFloat l)"
    by blast
  from m(3) have "Finite 1 = (if js_gt (parseFloat l) (Finite 1) then js_div (parseFloat l) (Finite 100)
                       else parseFloat l)"
    by simp
  with h m(1,2) show ?thesis by blast
qed

text \<open>
  C10. Every group the pattern captures is a non-empty string of digits and dots, so a
  signed literal never matches: on a string that holds \<open>oklch(\<dots>)\<close> once, with a
  minus sign and no parenthesis between the two parentheses and no opening parenthesis
  elsewhere, \<open>parseOklch\<close> returns \<open>null\<close> and each derivation function returns the
  string as it is.
\<close>

theorem minus_sign_rejected:
  assumes "CHR ''-'' \<in> set body" and "CHR ''('' \<notin> set body" and "CHR '')'' \<notin> set body"
    and "CHR ''('' \<notin> set pre" and "CHR ''('' \<notin> set post"
    and "s = pre @ ''oklch('' @ body @ '')'' @ post"
  shows "parseOklch s = None
       \<and> fst (generateCardColor s isLight lb cm) = s
       \<and> fst (generateBorderColor s isLight lb cm) = s
       \<and> fst (generateAccentColor s lr cb) = s
       \<and> fst (generateButtonBorderColor s lr cb) = s
       \<and> (\<forall>t m n a. regex_exec oklch_pattern t = Some m \<and> m n = Some a \<longrightarrow>
             a \<noteq> [] \<and> list_all digit_or_dot a)"
proof -
  have "\<not> is_space CHR ''-''" "\<not> digit_or_dot CHR ''-''"
    by (simp_all add: is_space_def digit_or_dot_def is_digit_def)
  with assms(1-5) have "regex_exec oklch_pattern (pre @ ''oklch('' @ body @ '')'' @ post) = None"
    by (intro no_match_with_other_char [where x = "CHR ''-''"]) simp_all
  then have n: "parseOklch s = None"
    unfolding assms(6) by (simp add: parseOklch_def)
  then have "fst (generateCardColor s isLight lb cm) = s"
      "fst (generateBorderColor s isLight lb cm) = s"
      "fst (generateAccentColor s lr cb) = s"
      "fst (generateButtonBorderColor s lr cb) = s"
    by (simp_all add: generateCardColor_def generateBorderColor_def generateAccentColor_def
        generateButtonBorderColor_def)
  moreover have "\<forall>t m n a. regex_exec oklch_pattern t = Some m \<and> m n = Some a \<longrightarrow>
             a \<noteq> [] \<and> list_all digit_or_dot a"
    using oklch_captures by blast
  ultimately show ?thesis using n by blast
qed

text \<open>The formatter prints a negative hue with its sign; the parser rejects what it printed.\<close>

theorem minus_sign_rejected_witness:
  "formatOklch (Finite (1/2)) (Finite (1/10)) (Finite (- 20)) (Finite 1)
     = ''oklch(50.00% 0.1000 -20.00 / 1)''
   \<and> CHR ''-'' \<in> set ''50.00% 0.1000 -20.00 / 1''
   \<and> CHR ''('' \<notin> set ''50.00% 0.1000 -20.00 / 1''
   \<and> CHR '')'' \<notin> set ''50.00% 0.1000 -20.00 / 1''
   \<and> ''oklch(50.00% 0.1000 -20.00 / 1)'' = [] @ ''oklch('' @ ''50.00% 0.1000 -20.00 / 1'' @ '')'' @ []
   \<and> parseOklch ''oklch(50.00% 0.1000 -20.00 / 1)'' = None
   \<and> fst (generateCardColor ''oklch(50.00% 0.1000 -20.00 / 1)'' True None None)
       = ''oklch(50.00% 0.1000 -20.00 / 1)''"
proof -
  have f: "formatOklch (Finite (1/2)) (Finite (1/10)) (Finite (- 20)) (Finite 1)
     = ''oklch(50.00% 0.1000 -20.00 / 1)''"
    by code_simp
  have h: "CHR ''-'' \<in> set ''50.00% 0.1000 -20.00 / 1''"
      "CHR ''('' \<notin> set ''50.00% 0.1000 -20.00 / 1''"
      "CHR '')'' \<notin> set ''50.00% 0.1000 -20.00 / 1''"
      "CHR ''('' \<notin> set []" "CHR ''('' \<notin> set []"
      "''oklch(50.00% 0.1000 -20.00 / 1)'' = [] @ ''oklch('' @ ''50.00% 0.1000 -20.00 / 1'' @ '')'' @ []"
    by simp_all
  from minus_sign_rejected [OF h, of True None None None None] f h(1,2,3,6)
  show ?thesis by blast
qed

section \<open>Digits and fixed notation\<close>



lemma digits_of_nonempty: "digits_of n \<noteq> []"
  by (subst digits_of.simps) simp












section \<open>Claims about the formatter\<close>




section \<open>The match the matcher finds on a formatted string\<close>


lemma first_Eps: "\<exists>tl. matches Eps s c = (s, c) # tl"
  by simp












section \<open>\<open>parseFloat\<close> on digit strings\<close>









section \<open>How a number between \<open>10\<^sup>-\<^sup>6\<close> and \<open>1\<close> prints\<close>
















section \<open>Claim about formatting and parsing back\<close>




end
